theory Spec2Isabelle
  imports Main
begin

section \<open>HomeScreen: the session guard and the refresh coordinator\<close>

text \<open>
  The model follows \<^verbatim>\<open>src/components/Screens/HomeScreen.tsx\<close>: the mount effect
  (\<^verbatim>\<open>useEffect\<close>, lines 301-332) with its helpers \<^verbatim>\<open>goToOauth\<close> and
  \<^verbatim>\<open>faceIdCheck\<close>, and the focus effect (\<^verbatim>\<open>useFocusEffect\<close>, lines 339-367).
  Everything the component does to the outside (navigation, toasts, network calls, the
  biometric prompt, the global axios header) is written to an explicit state; what the
  outside answers (the stored text, what the parser makes of it, the refresh endpoint, the
  prompt, the fetches) is an input.
\<close>

subsection \<open>Data\<close>

text \<open>The object kept in the secure store under \<^verbatim>\<open>secureKeys.tokens\<close>. The guard
  tests \<^verbatim>\<open>accessToken\<close> for truthiness, so it may be missing.\<close>

record storage_value =
  accessToken :: "string option"
  refreshToken :: string
  expiresAt :: int

text \<open>\<^verbatim>\<open>state.firefly.rangeDetails\<close> and \<^verbatim>\<open>state.currencies.current\<close>, as far as the
  screen reads them; the fields are the texts a template literal makes of them.\<close>

record range_details =
  range_start :: string
  range_end :: string

record currency =
  currency_id :: string

datatype family = NetWorth | Accounts | InsightCategories | InsightBudgets

text \<open>A settled promise: fulfilled with a value, or rejected with an error, which is kept
  as its \<^verbatim>\<open>message\<close>.\<close>

datatype 'a settled = Resolves 'a | Rejects string

text \<open>What the component does to its collaborators, in the order it does it.\<close>

datatype event =
    HeaderSet string
  | RefreshCall string
  | SecureStoreSet storage_value
  | BiometricPrompt
  | NavReset string
  | GetCurrencies
  | ToastShow string string string
  | Fetch family

text \<open>One \<^verbatim>\<open>Promise.all\<close> batch started by \<^verbatim>\<open>fetchData\<close>: the four effects' promises
  (\<open>None\<close> while pending), the joint promise and the promise of \<^verbatim>\<open>fetchData\<close> itself.
  \<open>batch_key\<close> remembers the filters text the batch was started for; no step reads it.\<close>

record batch =
  batch_key :: string
  promises :: "family \<Rightarrow> string settled option"
  joint :: "unit settled option"
  fetchData_promise :: "unit settled option"

text \<open>The state of the screen: \<^verbatim>\<open>axios.defaults.headers.Authorization\<close>,
  \<^verbatim>\<open>prevFiltersRef.current\<close>, the \<^verbatim>\<open>isActive\<close> variable of the current focus
  callback, the batches in flight, and the trace of effects.\<close>

record screen =
  Authorization :: "string option"
  prevFiltersRef :: "string option"
  isActive :: bool
  batches :: "batch list"
  trace :: "event list"

text \<open>What the outside answers during one run of the mount effect.\<close>

record environment =
  getItemAsync :: "string option"
  JSON_parse :: "string \<Rightarrow> string + storage_value option"
  backendURL :: "string option"
  faceId :: bool
  now :: int
  tolerance :: nat
  refresh_endpoint :: "string \<Rightarrow> storage_value settled"
  authenticateAsync :: "bool settled"
  currencies_endpoint :: "unit settled"
  translate :: "string \<Rightarrow> string"

datatype outcome = Returned screen | Threw string screen

subsection \<open>JavaScript helpers\<close>

text \<open>Truthiness of a value that is a string or \<^verbatim>\<open>undefined\<close>.\<close>

definition truthy :: "string option \<Rightarrow> bool" where
  "truthy v = (case v of None \<Rightarrow> False | Some t \<Rightarrow> t \<noteq> [])"

text \<open>A value inside a template literal: \<^verbatim>\<open>undefined\<close> prints as its name.\<close>

definition tpl :: "string option \<Rightarrow> string" where
  "tpl v = (case v of None \<Rightarrow> ''undefined'' | Some t \<Rightarrow> t)"

text \<open>\<^verbatim>\<open>JSON.parse(tokens)\<close>: the parser is an input (\<open>Inl\<close> is the SyntaxError it
  throws, \<open>Inr None\<close> the value \<^verbatim>\<open>null\<close>); \<^verbatim>\<open>JSON.parse(null)\<close> is \<^verbatim>\<open>null\<close>.\<close>

definition parse_tokens :: "environment \<Rightarrow> string + storage_value option" where
  "parse_tokens env =
     (case getItemAsync env of None \<Rightarrow> Inr None | Some t \<Rightarrow> JSON_parse env t)"

definition emit :: "event \<Rightarrow> screen \<Rightarrow> screen" where
  "emit e s = s\<lparr>trace := trace s @ [e]\<rparr>"

definition set_Authorization :: "string \<Rightarrow> screen \<Rightarrow> screen" where
  "set_Authorization v s = emit (HeaderSet v) (s\<lparr>Authorization := Some v\<rparr>)"

text \<open>Sequencing inside a \<^verbatim>\<open>try\<close> block: a throw skips what follows and keeps the
  state reached.\<close>

definition and_then :: "outcome \<Rightarrow> (screen \<Rightarrow> outcome) \<Rightarrow> outcome" where
  "and_then r k = (case r of Returned s \<Rightarrow> k s | Threw m s \<Rightarrow> Threw m s)"

fun final :: "outcome \<Rightarrow> screen" where
  "final (Returned s) = s"
| "final (Threw m s) = s"

subsection \<open>The session guard\<close>

text \<open>Modelled from the spec: \<^verbatim>\<open>TokenResponse.isTokenFresh\<close> (expo-auth-session, not
  under src) compares \<open>expiresAt\<close> against the current time with the provider's clock-skew
  tolerance.\<close>

definition isTokenFresh :: "environment \<Rightarrow> storage_value \<Rightarrow> bool" where
  "isTokenFresh env v = (now env + int (tolerance env) < expiresAt v)"

text \<open>Modelled from the spec: \<^verbatim>\<open>dispatch.firefly.getFreshAccessToken\<close> (the store
  model, not under src) calls the token-refresh endpoint with the refresh token; on success
  it persists the new credential and updates the auth header, on failure it throws.\<close>

definition getFreshAccessToken :: "environment \<Rightarrow> string \<Rightarrow> screen \<Rightarrow> outcome" where
  "getFreshAccessToken env rt s =
     (case refresh_endpoint env rt of
        Rejects m \<Rightarrow> Threw m (emit (RefreshCall rt) s)
      | Resolves c \<Rightarrow>
          Returned (set_Authorization (''Bearer '' @ tpl (accessToken c))
                      (emit (SecureStoreSet c) (emit (RefreshCall rt) s))))"

text \<open>\<^verbatim>\<open>dispatch.currencies.getCurrencies\<close>: an authenticated call that may throw.\<close>

definition getCurrencies :: "environment \<Rightarrow> screen \<Rightarrow> outcome" where
  "getCurrencies env s =
     (case currencies_endpoint env of
        Rejects m \<Rightarrow> Threw m (emit GetCurrencies s)
      | Resolves u \<Rightarrow> Returned (emit GetCurrencies s))"

definition goToOauth :: "screen \<Rightarrow> screen" where
  "goToOauth s = emit (NavReset ''oauth'') s"

definition faceIdCheck :: "environment \<Rightarrow> screen \<Rightarrow> outcome" where
  "faceIdCheck env s =
     (if faceId env then
        (case authenticateAsync env of
           Rejects m \<Rightarrow> Threw m (emit BiometricPrompt s)
         | Resolves success \<Rightarrow>
             (if \<not> success then Returned (goToOauth (emit BiometricPrompt s))
              else Returned (emit BiometricPrompt s)))
      else Returned s)"

definition toast_show :: "environment \<Rightarrow> string \<Rightarrow> screen \<Rightarrow> screen" where
  "toast_show env m s =
     emit (ToastShow (translate env ''home_container_error_title'') ''error''
             (translate env ''home_container_error_description'' @ '', '' @ m)) s"

text \<open>The body of the \<^verbatim>\<open>try\<close> block, lines 309-314.\<close>

definition try_block :: "environment \<Rightarrow> storage_value \<Rightarrow> screen \<Rightarrow> outcome" where
  "try_block env storageValue s =
     and_then
       (and_then
          (if \<not> isTokenFresh env storageValue
           then getFreshAccessToken env (refreshToken storageValue) s
           else Returned s)
          (faceIdCheck env))
       (getCurrencies env)"

text \<open>The async function of the mount effect, lines 302-331. \<open>Threw\<close> is a rejection that
  nothing handles.\<close>

definition sessionGuard :: "environment \<Rightarrow> screen \<Rightarrow> outcome" where
  "sessionGuard env s =
     (case parse_tokens env of
        Inl m \<Rightarrow> Threw m s
      | Inr parsed \<Rightarrow>
          (case parsed of
             Some storageValue \<Rightarrow>
               (if truthy (accessToken storageValue) \<and> truthy (backendURL env) then
                  (case try_block env storageValue
                          (set_Authorization (''Bearer '' @ tpl (accessToken storageValue)) s) of
                     Returned s' \<Rightarrow> Returned s'
                   | Threw m s' \<Rightarrow> Returned (toast_show env m s'))
                else Returned (goToOauth s))
           | None \<Rightarrow> Returned (goToOauth s)))"

text \<open>The effects of one run of the guard, without what the trace held before.\<close>

definition guard_events :: "environment \<Rightarrow> screen \<Rightarrow> event list" where
  "guard_events env s = drop (length (trace s)) (trace (final (sessionGuard env s)))"

subsection \<open>The refresh coordinator\<close>

text \<open>The key of line 358 and 360:
  \<^verbatim>\<open>`${rangeDetails?.start}-${rangeDetails?.end}-${currency?.id}`\<close>.\<close>

definition filtersKey :: "range_details option \<Rightarrow> currency option \<Rightarrow> string" where
  "filtersKey rangeDetails currency =
     tpl (map_option range_start rangeDetails) @ ''-'' @
     tpl (map_option range_end rangeDetails) @ ''-'' @
     tpl (map_option currency_id currency)"

definition families :: "family list" where
  "families = [NetWorth, Accounts, InsightCategories, InsightBudgets]"

definition new_batch :: "string \<Rightarrow> batch" where
  "new_batch key =
     \<lparr>batch_key = key, promises = (\<lambda>f. None), joint = None, fetchData_promise = None\<rparr>"

text \<open>\<^verbatim>\<open>fetchData\<close> up to its \<^verbatim>\<open>await\<close>, lines 343-352: the four dispatches are
  called one after the other while the array is built; each is an asynchronous effect of
  the store and hands back a promise, so a failure shows as a rejection later on. The
  function then waits for \<^verbatim>\<open>Promise.all\<close>. When the test fails the function is over at
  once.\<close>

definition fetchData :: "string \<Rightarrow> screen \<Rightarrow> screen" where
  "fetchData key s =
     (if isActive s \<and> truthy (Authorization s)
      then s\<lparr>batches := batches s @ [new_batch key],
              trace := trace s @ map Fetch families\<rparr>
      else s)"

text \<open>The focus callback, lines 340-361, and the cleanup it returns, lines 363-365.\<close>

definition focusEffect :: "range_details option \<Rightarrow> currency option \<Rightarrow> screen \<Rightarrow> screen" where
  "focusEffect rangeDetails currency s =
     (let s1 = s\<lparr>isActive := True\<rparr>;
          key = filtersKey rangeDetails currency
      in if prevFiltersRef s1 \<noteq> Some key
         then (fetchData key s1)\<lparr>prevFiltersRef := Some key\<rparr>
         else s1)"

definition cleanup :: "screen \<Rightarrow> screen" where
  "cleanup s = s\<lparr>isActive := False\<rparr>"

text \<open>One of the four promises of a batch settles. \<^verbatim>\<open>Promise.all\<close> rejects with the
  first rejection and fulfils once all four are fulfilled; the other promises go on and
  settle by themselves. \<^verbatim>\<open>fetchData\<close> ends when the joint promise settles: after a
  fulfilment there is nothing left to do, after a rejection the empty \<^verbatim>\<open>catch\<close> block
  runs (lines 353-355).\<close>

definition settle_batch :: "family \<Rightarrow> string settled \<Rightarrow> batch \<Rightarrow> batch" where
  "settle_batch f r b =
     (if promises b f \<noteq> None then b
      else
        (let ps = (promises b)(f := Some r);
             j = (case joint b of
                    Some x \<Rightarrow> Some x
                  | None \<Rightarrow>
                      (case r of
                         Rejects m \<Rightarrow> Some (Rejects m)
                       | Resolves x \<Rightarrow>
                           (if list_all (\<lambda>g. ps g \<noteq> None) families
                            then Some (Resolves ()) else None)));
             d = (case j of
                    None \<Rightarrow> None
                  | Some (Resolves u) \<Rightarrow> Some (Resolves ())
                  | Some (Rejects m) \<Rightarrow> Some (Resolves ()))
         in b\<lparr>promises := ps, joint := j, fetchData_promise := d\<rparr>))"

definition settle :: "nat \<Rightarrow> family \<Rightarrow> string settled \<Rightarrow> screen \<Rightarrow> screen" where
  "settle i f r s =
     (if i < length (batches s)
      then s\<lparr>batches := (batches s)[i := settle_batch f r (batches s ! i)]\<rparr>
      else s)"

text \<open>The pull-to-refresh handlers of the three tabs, lines 49, 100 and 167: the
  \<^verbatim>\<open>onRefresh\<close> of each \<^verbatim>\<open>RefreshControl\<close> is the store effect itself, so a pull
  dispatches the fetch of the tab at once; the header is not looked at.\<close>

datatype tab = home_accounts | home_categories | home_budgets

fun refreshed_family :: "tab \<Rightarrow> family" where
  "refreshed_family home_accounts = Accounts"
| "refreshed_family home_categories = InsightCategories"
| "refreshed_family home_budgets = InsightBudgets"

definition onRefresh :: "tab \<Rightarrow> screen \<Rightarrow> screen" where
  "onRefresh tb s = emit (Fetch (refreshed_family tb)) s"

text \<open>What can happen to the focus effect, and a run of such inputs.\<close>

datatype input =
    FocusEffect "range_details option" "currency option"
  | Cleanup
  | Settle nat family "string settled"

fun step :: "input \<Rightarrow> screen \<Rightarrow> screen" where
  "step (FocusEffect rangeDetails currency) s = focusEffect rangeDetails currency s"
| "step Cleanup s = cleanup s"
| "step (Settle i f r) s = settle i f r s"

fun run :: "input list \<Rightarrow> screen \<Rightarrow> screen" where
  "run [] s = s"
| "run (i # is) s = run is (step i s)"

fun is_trigger :: "input \<Rightarrow> bool" where
  "is_trigger (FocusEffect rangeDetails currency) = True"
| "is_trigger Cleanup = False"
| "is_trigger (Settle i f r) = False"

text \<open>The effects of one input, without what the trace held before.\<close>

definition issued :: "input \<Rightarrow> screen \<Rightarrow> event list" where
  "issued i s = drop (length (trace s)) (trace (step i s))"

text \<open>The screen when it is mounted: no header, no previous filters, nothing in flight.\<close>

definition mounted :: screen where
  "mounted = \<lparr>Authorization = None, prevFiltersRef = None, isActive = False,
              batches = [], trace = []\<rparr>"

subsection \<open>Notions used by the properties\<close>

fun is_refresh :: "event \<Rightarrow> bool" where
  "is_refresh (RefreshCall rt) = True"
| "is_refresh e = False"

text \<open>The four promises of batch \<open>i\<close> settling, in the order of the list.\<close>

fun settles :: "nat \<Rightarrow> (family \<times> string settled) list \<Rightarrow> input list" where
  "settles i [] = []"
| "settles i ((g, r) # rs) = Settle i g r # settles i rs"

text \<open>Following the words of the specification (its section 4.2), not the code: the
  fingerprint of the last batch that completed successfully, none before the first, and
  the rule that a trigger fetches exactly when its fingerprint differs from that one.\<close>

definition spec_lastFetchedFingerprint :: "screen \<Rightarrow> string option" where
  "spec_lastFetchedFingerprint s =
     (case filter (\<lambda>b. joint b = Some (Resolves ())) (batches s) of
        [] \<Rightarrow> None
      | b # bs \<Rightarrow> Some (batch_key (last (b # bs))))"

definition spec_refetch_rule :: "screen \<Rightarrow> range_details option \<Rightarrow> currency option \<Rightarrow> bool" where
  "spec_refetch_rule s rangeDetails currency =
     ((issued (FocusEffect rangeDetails currency) s \<noteq> []) =
      (spec_lastFetchedFingerprint s \<noteq> Some (filtersKey rangeDetails currency)))"

subsection \<open>Sample inputs\<close>

text \<open>A stored credential that expires at time 2000, read at time 1000 with the lock
  off and a backend configured; the variants change one answer each.\<close>

definition stored_text :: string where
  \<open>stored_text = ''{"accessToken":"A","refreshToken":"R","expiresAt":2000}''\<close>

definition stored_credential :: storage_value where
  "stored_credential = \<lparr>accessToken = Some ''A'', refreshToken = ''R'', expiresAt = 2000\<rparr>"

definition refreshed_credential :: storage_value where
  "refreshed_credential = \<lparr>accessToken = Some ''B'', refreshToken = ''R2'', expiresAt = 9000\<rparr>"

definition parse_sample :: "string \<Rightarrow> string + storage_value option" where
  "parse_sample t =
     (if t = stored_text then Inr (Some stored_credential)
      else if t = ''null'' then Inr None
      else Inl ''SyntaxError: JSON Parse error'')"

definition sample_env :: environment where
  "sample_env =
     \<lparr>getItemAsync = Some stored_text, JSON_parse = parse_sample,
      backendURL = Some ''https://firefly.example'', faceId = False,
      now = 1000, tolerance = 0,
      refresh_endpoint = (\<lambda>rt. Rejects ''Network Error''),
      authenticateAsync = Resolves True, currencies_endpoint = Resolves (),
      translate = (\<lambda>k. k)\<rparr>"

definition env_unparsable :: environment where
  "env_unparsable = sample_env\<lparr>getItemAsync := Some ''{''\<rparr>"

definition env_no_backend :: environment where
  "env_no_backend = sample_env\<lparr>backendURL := None\<rparr>"

definition env_unparsable_no_backend :: environment where
  "env_unparsable_no_backend = sample_env\<lparr>getItemAsync := Some ''{'', backendURL := None\<rparr>"

definition env_expired :: environment where
  "env_expired = sample_env\<lparr>now := 3000\<rparr>"

definition env_expired_no_backend :: environment where
  "env_expired_no_backend = sample_env\<lparr>now := 3000, backendURL := None\<rparr>"

definition env_locked :: environment where
  "env_locked = sample_env\<lparr>faceId := True, authenticateAsync := Resolves False\<rparr>"


definition env_refreshed_locked :: environment where
  "env_refreshed_locked =
     sample_env\<lparr>now := 3000, refresh_endpoint := (\<lambda>rt. Resolves refreshed_credential),
                faceId := True, authenticateAsync := Resolves False\<rparr>"

definition sample_range :: "range_details option" where
  "sample_range = Some \<lparr>range_start = ''2024-01-01'', range_end = ''2024-01-31''\<rparr>"

definition sample_currency :: "currency option" where
  "sample_currency = Some \<lparr>currency_id = ''USD''\<rparr>"

text \<open>The screen after the guard has run on a fresh credential; the same screen after a
  focus with the sample filters; after the user has then left; and after the four fetches
  have come back.\<close>

definition authenticated :: screen where
  "authenticated = final (sessionGuard sample_env mounted)"

definition triggered :: screen where
  "triggered = focusEffect sample_range sample_currency authenticated"

definition left_screen :: screen where
  "left_screen = cleanup triggered"

definition all_back :: "(family \<times> string settled) list" where
  "all_back =
     [(NetWorth, Resolves ''net worth''), (Accounts, Resolves ''accounts''),
      (InsightCategories, Resolves ''categories''), (InsightBudgets, Resolves ''budgets'')]"

definition accounts_fails :: "(family \<times> string settled) list" where
  "accounts_fails =
     [(NetWorth, Resolves ''net worth''), (Accounts, Rejects ''Request failed''),
      (InsightCategories, Resolves ''categories''), (InsightBudgets, Resolves ''budgets'')]"

definition completed :: screen where
  "completed = run (settles 0 all_back) left_screen"

text \<open>The focus effect runs when the screen is mounted, before the guard has read the
  store; the guard then installs the header; the user leaves and comes back with the same
  filters.\<close>

definition refocused :: screen where
  "refocused =
     cleanup (final (sessionGuard sample_env (focusEffect sample_range sample_currency mounted)))"

section \<open>Properties\<close>

lemmas guard_defs =
  sessionGuard_def try_block_def faceIdCheck_def goToOauth_def getCurrencies_def
  getFreshAccessToken_def toast_show_def set_Authorization_def emit_def and_then_def
  guard_events_def

lemmas sample_defs =
  sample_env_def parse_sample_def stored_text_def stored_credential_def mounted_def
  truthy_def tpl_def parse_tokens_def isTokenFresh_def

subsection \<open>Frame lemmas of the coordinator\<close>

lemma focusEffect_frame:
  "prevFiltersRef (focusEffect rd cur s) = Some (filtersKey rd cur) \<and>
   Authorization (focusEffect rd cur s) = Authorization s \<and>
   trace (focusEffect rd cur s) =
     trace s @ (if prevFiltersRef s \<noteq> Some (filtersKey rd cur) \<and> truthy (Authorization s)
                then map Fetch families else [])"
  by (simp add: focusEffect_def fetchData_def Let_def)

lemma settle_frame:
  "trace (settle i f r s) = trace s \<and> Authorization (settle i f r s) = Authorization s \<and>
   prevFiltersRef (settle i f r s) = prevFiltersRef s \<and> isActive (settle i f r s) = isActive s \<and>
   length (batches (settle i f r s)) = length (batches s)"
  by (simp add: settle_def)

lemma step_Authorization: "Authorization (step i s) = Authorization s"
  by (cases i) (simp_all add: focusEffect_frame cleanup_def settle_frame)

lemma step_quiet:
  "\<not> is_trigger i \<Longrightarrow> prevFiltersRef (step i s) = prevFiltersRef s \<and> trace (step i s) = trace s"
  by (cases i) (simp_all add: cleanup_def settle_frame)

lemma run_quiet:
  "\<forall>i\<in>set mid. \<not> is_trigger i \<Longrightarrow>
     prevFiltersRef (run mid s) = prevFiltersRef s \<and> trace (run mid s) = trace s \<and>
     Authorization (run mid s) = Authorization s"
  by (induction mid arbitrary: s) (simp_all add: step_quiet step_Authorization)

lemma issued_focusEffect:
  "issued (FocusEffect rd cur) s =
     (if prevFiltersRef s \<noteq> Some (filtersKey rd cur) \<and> truthy (Authorization s)
      then map Fetch families else [])"
  by (simp add: issued_def focusEffect_frame)

lemma settle_nth:
  "i < length (batches s) \<Longrightarrow> batches (settle i f r s) ! i = settle_batch f r (batches s ! i)"
  by (simp add: settle_def)

lemma settle_batch_promises:
  "promises (settle_batch f r b) g = (if g = f \<and> promises b f = None then Some r else promises b g)"
  by (simp add: settle_batch_def Let_def)

lemma settle_batch_joint_kept:
  "joint b = Some x \<Longrightarrow> joint (settle_batch f r b) = Some x"
  by (simp add: settle_batch_def Let_def)

lemma settle_batch_rejects:
  "promises b f = None \<Longrightarrow> \<exists>x. joint (settle_batch f (Rejects m) b) = Some x"
  by (cases "joint b") (simp_all add: settle_batch_def Let_def)

lemma settle_batch_swallows:
  assumes "joint b \<noteq> None \<longrightarrow> fetchData_promise b = Some (Resolves ())"
    and "joint (settle_batch f r b) \<noteq> None"
  shows "fetchData_promise (settle_batch f r b) = Some (Resolves ())"
proof (cases "promises b f")
  case None
  then have "fetchData_promise (settle_batch f r b) =
      (case joint (settle_batch f r b) of None \<Rightarrow> None | Some x \<Rightarrow> Some (Resolves ()))"
    by (simp add: settle_batch_def Let_def split: option.splits settled.splits)
  with assms(2) show ?thesis by (auto split: option.splits)
next
  case (Some y)
  then have "settle_batch f r b = b" by (simp add: settle_batch_def)
  with assms show ?thesis by simp
qed

lemma run_settles_frame:
  "trace (run (settles i rs) s) = trace s \<and> Authorization (run (settles i rs) s) = Authorization s \<and>
   prevFiltersRef (run (settles i rs) s) = prevFiltersRef s \<and>
   length (batches (run (settles i rs) s)) = length (batches s)"
  by (induction i rs arbitrary: s rule: settles.induct) (simp_all add: settle_frame)

lemma run_settles_kept:
  "i < length (batches s) \<Longrightarrow> promises (batches s ! i) g = Some r \<Longrightarrow>
   promises (batches (run (settles i rs) s) ! i) g = Some r"
proof (induction rs arbitrary: s)
  case Nil
  then show ?case by simp
next
  case (Cons a rs)
  obtain g0 r0 where a: "a = (g0, r0)" by (cases a)
  let ?s1 = "settle i g0 r0 s"
  have len: "i < length (batches ?s1)" using Cons.prems(1) by (simp add: settle_frame)
  have "promises (batches ?s1 ! i) g = Some r"
    using Cons.prems by (auto simp: settle_nth settle_batch_promises)
  from Cons.IH [OF len this] show ?case by (simp add: a)
qed

lemma run_settles_recorded:
  "i < length (batches s) \<Longrightarrow> distinct (map fst rs) \<Longrightarrow>
   \<forall>g\<in>fst ` set rs. promises (batches s ! i) g = None \<Longrightarrow> (g, r) \<in> set rs \<Longrightarrow>
   promises (batches (run (settles i rs) s) ! i) g = Some r"
proof (induction rs arbitrary: s)
  case Nil
  then show ?case by simp
next
  case (Cons a rs)
  obtain g0 r0 where a: "a = (g0, r0)" by (cases a)
  let ?s1 = "settle i g0 r0 s"
  have len: "i < length (batches ?s1)" using Cons.prems(1) by (simp add: settle_frame)
  show ?case
  proof (cases "(g, r) = (g0, r0)")
    case True
    have "promises (batches ?s1 ! i) g0 = Some r0"
      using Cons.prems by (simp add: a settle_nth settle_batch_promises)
    from run_settles_kept [OF len this] True show ?thesis by (simp add: a)
  next
    case False
    then have mem: "(g, r) \<in> set rs" using Cons.prems(4) by (auto simp: a)
    have pend: "\<forall>h\<in>fst ` set rs. promises (batches ?s1 ! i) h = None"
      using Cons.prems(1,2,3) by (auto simp: a settle_nth settle_batch_promises)
    have "distinct (map fst rs)" using Cons.prems(2) by simp
    from Cons.IH [OF len this pend mem] show ?thesis by (simp add: a)
  qed
qed

lemma run_settles_joint_kept:
  "i < length (batches s) \<Longrightarrow> joint (batches s ! i) = Some x \<Longrightarrow>
   joint (batches (run (settles i rs) s) ! i) = Some x"
proof (induction rs arbitrary: s)
  case Nil
  then show ?case by simp
next
  case (Cons a rs)
  obtain g0 r0 where a: "a = (g0, r0)" by (cases a)
  let ?s1 = "settle i g0 r0 s"
  have len: "i < length (batches ?s1)" using Cons.prems(1) by (simp add: settle_frame)
  have "joint (batches ?s1 ! i) = Some x"
    using Cons.prems by (simp add: settle_nth settle_batch_joint_kept)
  from Cons.IH [OF len this] show ?case by (simp add: a)
qed

lemma run_settles_rejected:
  "i < length (batches s) \<Longrightarrow> distinct (map fst rs) \<Longrightarrow>
   \<forall>g\<in>fst ` set rs. promises (batches s ! i) g = None \<Longrightarrow> (f, Rejects m) \<in> set rs \<Longrightarrow>
   joint (batches (run (settles i rs) s) ! i) \<noteq> None"
proof (induction rs arbitrary: s)
  case Nil
  then show ?case by simp
next
  case (Cons a rs)
  obtain g0 r0 where a: "a = (g0, r0)" by (cases a)
  let ?s1 = "settle i g0 r0 s"
  have len: "i < length (batches ?s1)" using Cons.prems(1) by (simp add: settle_frame)
  show ?case
  proof (cases "(f, Rejects m) = (g0, r0)")
    case True
    have "promises (batches s ! i) f = None" using Cons.prems(3) True by (simp add: a)
    from settle_batch_rejects [OF this, of m]
    obtain x where "joint (batches ?s1 ! i) = Some x"
      using True Cons.prems(1) by (auto simp: settle_nth)
    from run_settles_joint_kept [OF len this] show ?thesis by (simp add: a)
  next
    case False
    then have mem: "(f, Rejects m) \<in> set rs" using Cons.prems(4) by (auto simp: a)
    have pend: "\<forall>h\<in>fst ` set rs. promises (batches ?s1 ! i) h = None"
      using Cons.prems(1,2,3) by (auto simp: a settle_nth settle_batch_promises)
    have "distinct (map fst rs)" using Cons.prems(2) by simp
    from Cons.IH [OF len this pend mem] show ?thesis by (simp add: a)
  qed
qed

lemma run_settles_swallows:
  "i < length (batches s) \<Longrightarrow>
   (joint (batches s ! i) \<noteq> None \<longrightarrow> fetchData_promise (batches s ! i) = Some (Resolves ())) \<Longrightarrow>
   joint (batches (run (settles i rs) s) ! i) \<noteq> None \<longrightarrow>
     fetchData_promise (batches (run (settles i rs) s) ! i) = Some (Resolves ())"
proof (induction rs arbitrary: s)
  case Nil
  then show ?case by simp
next
  case (Cons a rs)
  obtain g0 r0 where a: "a = (g0, r0)" by (cases a)
  let ?s1 = "settle i g0 r0 s"
  have len: "i < length (batches ?s1)" using Cons.prems(1) by (simp add: settle_frame)
  have inv: "joint (batches ?s1 ! i) \<noteq> None \<longrightarrow> fetchData_promise (batches ?s1 ! i) = Some (Resolves ())"
    using Cons.prems settle_batch_swallows [of "batches s ! i" g0 r0]
    by (simp add: settle_nth)
  from Cons.IH [OF len inv] show ?case by (simp add: a)
qed


subsection \<open>The sample runs, evaluated\<close>

lemma sample_key: "filtersKey sample_range sample_currency = ''2024-01-01-2024-01-31-USD''"
  by (simp add: filtersKey_def sample_range_def sample_currency_def tpl_def)

lemma authenticated_eval:
  "authenticated =
     \<lparr>Authorization = Some ''Bearer A'', prevFiltersRef = None, isActive = False,
      batches = [], trace = [HeaderSet ''Bearer A'', GetCurrencies]\<rparr>"
  by (simp add: authenticated_def sample_defs guard_defs)

lemma triggered_eval:
  "triggered =
     \<lparr>Authorization = Some ''Bearer A'',
      prevFiltersRef = Some ''2024-01-01-2024-01-31-USD'', isActive = True,
      batches = [new_batch ''2024-01-01-2024-01-31-USD''],
      trace = [HeaderSet ''Bearer A'', GetCurrencies, Fetch NetWorth, Fetch Accounts,
               Fetch InsightCategories, Fetch InsightBudgets]\<rparr>"
  by (simp add: triggered_def authenticated_eval focusEffect_def fetchData_def sample_key
      truthy_def families_def Let_def)

lemma refocused_eval:
  "refocused =
     \<lparr>Authorization = Some ''Bearer A'',
      prevFiltersRef = Some ''2024-01-01-2024-01-31-USD'', isActive = False,
      batches = [], trace = [HeaderSet ''Bearer A'', GetCurrencies]\<rparr>"
  by (simp add: refocused_def sample_defs guard_defs focusEffect_def fetchData_def sample_key
      cleanup_def Let_def)

lemma absent_credential_redirects:
  "getItemAsync env = None \<Longrightarrow>
     sessionGuard env s = Returned (goToOauth s) \<and> guard_events env s = [NavReset ''oauth'']"
  by (simp add: guard_defs parse_tokens_def)

lemma tokenless_credential_redirects:
  "parse_tokens env = Inr (Some v) \<Longrightarrow> \<not> truthy (accessToken v) \<Longrightarrow>
     sessionGuard env s = Returned (goToOauth s) \<and> guard_events env s = [NavReset ''oauth'']"
  by (simp add: guard_defs)

subsection \<open>The refresh coordinator\<close>

text \<open>
  C1, as amended. The code keeps in \<^verbatim>\<open>prevFiltersRef\<close> the filters text of the latest
  trigger, whatever became of its fetches. So: on a trigger, the batch of the four fetches is
  issued if and only if the trigger's filters text differs from \<^verbatim>\<open>prevFiltersRef\<close> and the
  auth header is set; after a trigger, and whatever settles or whichever cleanup runs in
  between, \<^verbatim>\<open>prevFiltersRef\<close> is that trigger's text, so the next trigger fetches if and
  only if its text differs from the previous trigger's and the header is set; in particular
  the second of two consecutive triggers with identical fingerprints issues no fetch.
\<close>

theorem refetch_iff_filters_key_changed:
  assumes "\<forall>i\<in>set mid. \<not> is_trigger i"
  shows "issued (FocusEffect rd cur) s =
           (if prevFiltersRef s \<noteq> Some (filtersKey rd cur) \<and> truthy (Authorization s)
            then map Fetch families else []) \<and>
         prevFiltersRef (run mid (step (FocusEffect rd cur) s)) = Some (filtersKey rd cur) \<and>
         issued (FocusEffect rd' cur') (run mid (step (FocusEffect rd cur) s)) =
           (if filtersKey rd' cur' \<noteq> filtersKey rd cur \<and> truthy (Authorization s)
            then map Fetch families else []) \<and>
         issued (FocusEffect rd cur) (run mid (step (FocusEffect rd cur) s)) = []"
proof -
  let ?s1 = "step (FocusEffect rd cur) s"
  have prev: "prevFiltersRef (run mid ?s1) = Some (filtersKey rd cur)"
    using run_quiet [OF assms, of ?s1] by (simp add: focusEffect_frame)
  have auth: "Authorization (run mid ?s1) = Authorization s"
    using run_quiet [OF assms, of ?s1] by (simp add: focusEffect_frame)
  have next_trigger: "issued (FocusEffect rd' cur') (run mid ?s1) =
           (if filtersKey rd' cur' \<noteq> filtersKey rd cur \<and> truthy (Authorization s)
            then map Fetch families else [])" for rd' cur'
    using prev auth by (simp only: issued_focusEffect) auto
  have same: "issued (FocusEffect rd cur) (run mid ?s1) = []"
    using next_trigger [of rd cur] by simp
  show ?thesis
    by (intro conjI) (fact issued_focusEffect, fact prev, fact next_trigger, fact same)
qed

theorem refetch_iff_filters_key_changed_witness:
  "\<not> is_trigger Cleanup \<and> \<not> is_trigger (Settle 0 Accounts (Rejects ''Request failed'')) \<and>
   issued (FocusEffect sample_range sample_currency) authenticated =
     [Fetch NetWorth, Fetch Accounts, Fetch InsightCategories, Fetch InsightBudgets] \<and>
   issued (FocusEffect sample_range sample_currency)
     (run [Cleanup, Settle 0 Accounts (Rejects ''Request failed'')]
        (step (FocusEffect sample_range sample_currency) authenticated)) = []"
proof -
  have h: "\<forall>i\<in>set [Cleanup, Settle 0 Accounts (Rejects ''Request failed'')]. \<not> is_trigger i"
    by simp
  from refetch_iff_filters_key_changed [OF h, of sample_range sample_currency authenticated]
  show ?thesis
    by (simp add: authenticated_eval sample_key truthy_def families_def)
qed

text \<open>
  C1 as stated fails. The focus effect first runs while the header is still unset: nothing
  is fetched, and the filters text is recorded all the same. When the user comes back with
  the same filters, the header now set, no batch has ever completed for that fingerprint,
  and yet nothing is fetched.
\<close>

theorem refetch_rule_counterexample:
  "\<not> spec_refetch_rule refocused sample_range sample_currency \<and>
   truthy (Authorization refocused) \<and>
   spec_lastFetchedFingerprint refocused = None \<and>
   issued (FocusEffect sample_range sample_currency) refocused = []"
  by (simp add: spec_refetch_rule_def spec_lastFetchedFingerprint_def refocused_eval sample_key
      issued_def focusEffect_def fetchData_def truthy_def)

text \<open>
  C2, as amended. For every trigger whose filters text differs from \<^verbatim>\<open>prevFiltersRef\<close>,
  with the auth header set, the coordinator issues exactly one batch of the four fetch
  families, and \<^verbatim>\<open>prevFiltersRef\<close> takes the new value at the trigger itself, while the
  batch is still pending, and keeps it whatever happens before the next trigger: whether
  the screen stays active or not, and however the fetches settle.
\<close>

theorem changed_key_issues_one_batch:
  assumes "prevFiltersRef s \<noteq> Some (filtersKey rd cur)" and "truthy (Authorization s)"
    and "\<forall>i\<in>set mid. \<not> is_trigger i"
  shows "issued (FocusEffect rd cur) s =
           [Fetch NetWorth, Fetch Accounts, Fetch InsightCategories, Fetch InsightBudgets] \<and>
         batches (step (FocusEffect rd cur) s) = batches s @ [new_batch (filtersKey rd cur)] \<and>
         joint (new_batch (filtersKey rd cur)) = None \<and>
         prevFiltersRef (step (FocusEffect rd cur) s) = Some (filtersKey rd cur) \<and>
         prevFiltersRef (run mid (step (FocusEffect rd cur) s)) = Some (filtersKey rd cur)"
proof -
  have "issued (FocusEffect rd cur) s =
          [Fetch NetWorth, Fetch Accounts, Fetch InsightCategories, Fetch InsightBudgets]"
    using assms(1,2) by (simp add: issued_focusEffect families_def)
  moreover have "batches (step (FocusEffect rd cur) s) = batches s @ [new_batch (filtersKey rd cur)]"
    using assms(1,2) by (simp add: focusEffect_def fetchData_def Let_def)
  moreover have "prevFiltersRef (run mid (step (FocusEffect rd cur) s)) = Some (filtersKey rd cur)"
    using run_quiet [OF assms(3), of "step (FocusEffect rd cur) s"] by (simp add: focusEffect_frame)
  ultimately show ?thesis by (simp add: focusEffect_frame new_batch_def)
qed

theorem changed_key_issues_one_batch_witness:
  "prevFiltersRef authenticated \<noteq> Some (filtersKey sample_range sample_currency) \<and>
   truthy (Authorization authenticated) \<and>
   \<not> is_trigger Cleanup \<and> \<not> is_trigger (Settle 0 NetWorth (Resolves ''net worth'')) \<and>
   issued (FocusEffect sample_range sample_currency) authenticated =
     [Fetch NetWorth, Fetch Accounts, Fetch InsightCategories, Fetch InsightBudgets] \<and>
   prevFiltersRef (run [Cleanup, Settle 0 NetWorth (Resolves ''net worth'')]
                     (step (FocusEffect sample_range sample_currency) authenticated)) =
     Some ''2024-01-01-2024-01-31-USD''"
proof -
  have h1: "prevFiltersRef authenticated \<noteq> Some (filtersKey sample_range sample_currency)"
    by (simp add: authenticated_eval)
  have h2: "truthy (Authorization authenticated)"
    by (simp add: authenticated_eval truthy_def)
  have h3: "\<forall>i\<in>set [Cleanup, Settle 0 NetWorth (Resolves ''net worth'')]. \<not> is_trigger i"
    by simp
  from changed_key_issues_one_batch [OF h1 h2 h3] h1 h2 show ?thesis
    by (simp add: sample_key)
qed

text \<open>
  C2 as stated fails: right after the trigger the joint promise of the batch is still
  pending and \<^verbatim>\<open>prevFiltersRef\<close> already holds the new value; the user then leaves
  (\<^verbatim>\<open>isActive\<close> is false), the four fetches come back, and the new value is still there.
\<close>

theorem prevFiltersRef_updated_before_completion:
  "prevFiltersRef authenticated = None \<and>
   joint (batches triggered ! 0) = None \<and>
   prevFiltersRef triggered = Some ''2024-01-01-2024-01-31-USD'' \<and>
   \<not> isActive left_screen \<and>
   joint (batches completed ! 0) = Some (Resolves ()) \<and>
   prevFiltersRef completed = Some ''2024-01-01-2024-01-31-USD''"
  by (simp add: completed_def left_screen_def triggered_eval authenticated_eval all_back_def
      cleanup_def settle_def settle_batch_def new_batch_def families_def Let_def)

text \<open>
  C8. In a batch whose four promises are pending, let the promises settle in any order,
  one of them with a rejection. Then nothing is emitted (no notification, no redirect, no
  effect at all), \<^verbatim>\<open>fetchData\<close> ends normally (the rejection stops in its empty
  \<^verbatim>\<open>catch\<close>), and every fetch that resolves keeps its result in its own promise.
\<close>

theorem fetch_failure_swallowed:
  assumes "i < length (batches s)" and "batches s ! i = new_batch key"
    and "distinct (map fst rs)" and "(f, Rejects m) \<in> set rs"
  shows "trace (run (settles i rs) s) = trace s \<and>
         fetchData_promise (batches (run (settles i rs) s) ! i) = Some (Resolves ()) \<and>
         (\<forall>g x. (g, Resolves x) \<in> set rs \<longrightarrow>
            promises (batches (run (settles i rs) s) ! i) g = Some (Resolves x))"
proof -
  have pend: "\<forall>g\<in>fst ` set rs. promises (batches s ! i) g = None"
    using assms(2) by (simp add: new_batch_def)
  have inv: "joint (batches s ! i) \<noteq> None \<longrightarrow> fetchData_promise (batches s ! i) = Some (Resolves ())"
    using assms(2) by (simp add: new_batch_def)
  have "joint (batches (run (settles i rs) s) ! i) \<noteq> None"
    by (rule run_settles_rejected [OF assms(1) assms(3) pend assms(4)])
  with run_settles_swallows [OF assms(1) inv, of rs]
  have swallowed: "fetchData_promise (batches (run (settles i rs) s) ! i) = Some (Resolves ())"
    by simp
  have "\<forall>g x. (g, Resolves x) \<in> set rs \<longrightarrow>
          promises (batches (run (settles i rs) s) ! i) g = Some (Resolves x)"
    using run_settles_recorded [OF assms(1) assms(3) pend] by blast
  with swallowed run_settles_frame [of i rs s] show ?thesis by simp
qed

theorem fetch_failure_swallowed_witness:
  "0 < length (batches triggered) \<and>
   batches triggered ! 0 = new_batch ''2024-01-01-2024-01-31-USD'' \<and>
   distinct (map fst accounts_fails) \<and> (Accounts, Rejects ''Request failed'') \<in> set accounts_fails \<and>
   (NetWorth, Resolves ''net worth'') \<in> set accounts_fails \<and>
   trace (run (settles 0 accounts_fails) triggered) = trace triggered \<and>
   fetchData_promise (batches (run (settles 0 accounts_fails) triggered) ! 0) = Some (Resolves ()) \<and>
   promises (batches (run (settles 0 accounts_fails) triggered) ! 0) NetWorth =
     Some (Resolves ''net worth'')"
proof -
  have h1: "0 < length (batches triggered)" by (simp add: triggered_eval)
  have h2: "batches triggered ! 0 = new_batch ''2024-01-01-2024-01-31-USD''"
    by (simp add: triggered_eval)
  have h3: "distinct (map fst accounts_fails)" by (simp add: accounts_fails_def)
  have h4: "(Accounts, Rejects ''Request failed'') \<in> set accounts_fails"
    by (simp add: accounts_fails_def)
  have h5: "(NetWorth, Resolves ''net worth'') \<in> set accounts_fails"
    by (simp add: accounts_fails_def)
  from fetch_failure_swallowed [OF h1 h2 h3 h4] h5
  have "trace (run (settles 0 accounts_fails) triggered) = trace triggered \<and>
        fetchData_promise (batches (run (settles 0 accounts_fails) triggered) ! 0) =
          Some (Resolves ()) \<and>
        promises (batches (run (settles 0 accounts_fails) triggered) ! 0) NetWorth =
          Some (Resolves ''net worth'')"
    by blast
  with h1 h2 h3 h4 h5 show ?thesis by simp
qed

subsection \<open>The session guard\<close>

lemma emit_frame:
  "trace (emit e s) = trace s @ [e]" "Authorization (emit e s) = Authorization s"
  by (simp_all add: emit_def)

lemma set_Authorization_frame:
  "trace (set_Authorization h s) = trace s @ [HeaderSet h]"
  "Authorization (set_Authorization h s) = Some h"
  by (simp_all add: set_Authorization_def emit_def)

lemma goToOauth_frame:
  "trace (goToOauth s) = trace s @ [NavReset ''oauth'']"
  "Authorization (goToOauth s) = Authorization s"
  by (simp_all add: goToOauth_def emit_def)

lemma toast_show_frame:
  "trace (toast_show env m s) =
     trace s @ [ToastShow (translate env ''home_container_error_title'') ''error''
                  (translate env ''home_container_error_description'' @ '', '' @ m)]"
  "Authorization (toast_show env m s) = Authorization s"
  by (simp_all add: toast_show_def emit_def)

lemmas guard_simps =
  sessionGuard_def try_block_def faceIdCheck_def getCurrencies_def getFreshAccessToken_def
  and_then_def guard_events_def emit_frame set_Authorization_frame goToOauth_frame
  toast_show_frame

lemma issued_quiet: "\<not> is_trigger i \<Longrightarrow> issued i s = []"
  by (simp add: issued_def step_quiet)

text \<open>
  C3, at the input where the code departs from it. The stored text is \<^verbatim>\<open>{\<close>, which
  \<^verbatim>\<open>JSON.parse\<close> refuses. The call stands before the \<^verbatim>\<open>try\<close> block (line 304), so
  the error leaves the async function: the guard ends with a rejection that nothing
  handles, and it has done nothing; in particular it has not reset the navigation.
\<close>

theorem unparsable_credential_rejects_unhandled:
  "parse_tokens env_unparsable = Inl ''SyntaxError: JSON Parse error'' \<and>
   sessionGuard env_unparsable mounted = Threw ''SyntaxError: JSON Parse error'' mounted \<and>
   guard_events env_unparsable mounted = [] \<and>
   NavReset ''oauth'' \<notin> set (guard_events env_unparsable mounted)"
  by (simp add: env_unparsable_def sample_defs guard_defs)

text \<open>
  C4, as amended. The guard sets the header as its first effect once a stored credential
  with an access token has been read, provided a backend is configured, and when the guard
  ends the header holds that token, or the refreshed one when the stored token was stale
  and the refresh succeeded; a redirect to login leaves the header as it is, and no run
  of the guard unsets a header that was set; the guard calls the currencies endpoint only
  after it has set the header, and the coordinator (the focus effect, its cleanup, the
  settling of its fetches) issues nothing while the header is unset. The pull-to-refresh
  handlers of the tabs are outside this rule: a pull dispatches its fetch whatever the
  header holds.
\<close>

theorem header_set_on_load_never_cleared:
  "(parse_tokens env = Inr (Some v) \<and> truthy (accessToken v) \<and> truthy (backendURL env) \<longrightarrow>
      take 1 (guard_events env s) = [HeaderSet (''Bearer '' @ tpl (accessToken v))] \<and>
      Authorization (final (sessionGuard env s)) =
        Some (''Bearer '' @
              tpl (accessToken
                     (if isTokenFresh env v then v
                      else (case refresh_endpoint env (refreshToken v) of
                              Resolves c \<Rightarrow> c
                            | Rejects m \<Rightarrow> v))))) \<and>
   Authorization (goToOauth s) = Authorization s \<and>
   (truthy (Authorization s) \<longrightarrow> truthy (Authorization (final (sessionGuard env s)))) \<and>
   (\<forall>pre post. guard_events env s = pre @ GetCurrencies # post \<longrightarrow>
      (\<exists>h. HeaderSet h \<in> set pre)) \<and>
   (\<not> truthy (Authorization t) \<longrightarrow> issued i t = []) \<and>
   trace (onRefresh tb t) = trace t @ [Fetch (refreshed_family tb)]"
proof (intro conjI)
  show "parse_tokens env = Inr (Some v) \<and> truthy (accessToken v) \<and> truthy (backendURL env) \<longrightarrow>
      take 1 (guard_events env s) = [HeaderSet (''Bearer '' @ tpl (accessToken v))] \<and>
      Authorization (final (sessionGuard env s)) =
        Some (''Bearer '' @
              tpl (accessToken
                     (if isTokenFresh env v then v
                      else (case refresh_endpoint env (refreshToken v) of
                              Resolves c \<Rightarrow> c
                            | Rejects m \<Rightarrow> v))))"
    by (auto simp: guard_simps split: settled.splits)
  show "Authorization (goToOauth s) = Authorization s"
    by (simp add: goToOauth_frame)
  show "truthy (Authorization s) \<longrightarrow> truthy (Authorization (final (sessionGuard env s)))"
    by (auto simp: guard_simps truthy_def split: settled.splits sum.splits option.splits)
  show "\<forall>pre post. guard_events env s = pre @ GetCurrencies # post \<longrightarrow>
      (\<exists>h. HeaderSet h \<in> set pre)"
    by (auto simp: guard_simps Cons_eq_append_conv
        split: settled.splits sum.splits option.splits if_splits)
  show "\<not> truthy (Authorization t) \<longrightarrow> issued i t = []"
    by (cases i) (simp_all add: issued_focusEffect issued_quiet)
  show "trace (onRefresh tb t) = trace t @ [Fetch (refreshed_family tb)]"
    by (simp add: onRefresh_def emit_frame)
qed

theorem header_set_on_load_never_cleared_witness:
  "parse_tokens env_refreshed_locked = Inr (Some stored_credential) \<and>
   truthy (accessToken stored_credential) \<and> truthy (backendURL env_refreshed_locked) \<and>
   truthy (Authorization authenticated) \<and> \<not> truthy (Authorization mounted) \<and>
   guard_events env_refreshed_locked authenticated =
     [HeaderSet ''Bearer A'', RefreshCall ''R'', SecureStoreSet refreshed_credential,
      HeaderSet ''Bearer B'', BiometricPrompt, NavReset ''oauth''] @ GetCurrencies # [] \<and>
   take 1 (guard_events env_refreshed_locked authenticated) = [HeaderSet ''Bearer A''] \<and>
   Authorization (final (sessionGuard env_refreshed_locked authenticated)) = Some ''Bearer B'' \<and>
   truthy (Authorization (final (sessionGuard env_refreshed_locked authenticated))) \<and>
   issued (FocusEffect sample_range sample_currency) mounted = []"
proof -
  have h1: "parse_tokens env_refreshed_locked = Inr (Some stored_credential) \<and>
      truthy (accessToken stored_credential) \<and> truthy (backendURL env_refreshed_locked)"
    by (simp add: env_refreshed_locked_def sample_defs)
  have h2: "truthy (Authorization authenticated)"
    by (simp add: authenticated_eval truthy_def)
  have h3: "\<not> truthy (Authorization mounted)"
    by (simp add: mounted_def truthy_def)
  have stale: "\<not> isTokenFresh env_refreshed_locked stored_credential \<and>
      refresh_endpoint env_refreshed_locked (refreshToken stored_credential) =
        Resolves refreshed_credential"
    by (simp add: env_refreshed_locked_def sample_defs)
  have run: "guard_events env_refreshed_locked authenticated =
      [HeaderSet ''Bearer A'', RefreshCall ''R'', SecureStoreSet refreshed_credential,
       HeaderSet ''Bearer B'', BiometricPrompt, NavReset ''oauth''] @ GetCurrencies # []"
    by (simp add: authenticated_eval env_refreshed_locked_def refreshed_credential_def
        sample_defs guard_defs)
  from header_set_on_load_never_cleared
         [of env_refreshed_locked stored_credential authenticated mounted
             "FocusEffect sample_range sample_currency" home_accounts] h1 h2 h3
  have "take 1 (guard_events env_refreshed_locked authenticated) =
          [HeaderSet (''Bearer '' @ tpl (accessToken stored_credential))] \<and>
        Authorization (final (sessionGuard env_refreshed_locked authenticated)) =
          Some (''Bearer '' @
                tpl (accessToken
                       (if isTokenFresh env_refreshed_locked stored_credential
                        then stored_credential
                        else (case refresh_endpoint env_refreshed_locked
                                     (refreshToken stored_credential) of
                                Resolves c \<Rightarrow> c
                              | Rejects m \<Rightarrow> stored_credential)))) \<and>
        truthy (Authorization (final (sessionGuard env_refreshed_locked authenticated))) \<and>
        issued (FocusEffect sample_range sample_currency) mounted = []"
    by blast
  with h1 h2 h3 stale run show ?thesis
    by (simp add: stored_credential_def refreshed_credential_def tpl_def truthy_def)
qed

text \<open>
  C4 as stated fails twice. With the lock on and the prompt denied, the guard resets the
  navigation to the login entry point and the header still holds the stored token. And
  on the screen just mounted, the header unset, a pull on the accounts tab dispatches the
  accounts fetch.
\<close>

theorem redirect_keeps_header:
  "NavReset ''oauth'' \<in> set (guard_events env_locked mounted) \<and>
   Authorization (final (sessionGuard env_locked mounted)) = Some ''Bearer A'' \<and>
   Authorization mounted = None \<and>
   trace (onRefresh home_accounts mounted) = [Fetch Accounts]"
  by (simp add: env_locked_def sample_defs guard_defs onRefresh_def)

text \<open>
  C5, as amended. For every stored credential with a non-empty access token and
  \<open>expiresAt\<close> in the past, a backend being configured, the guard calls the token-refresh
  endpoint exactly once, with the stored refresh token; if that call fails, the guard does
  three things and no more (it sets the header to the stored token, calls the refresh
  endpoint, shows an error notification whose description ends with the failure message),
  so there is no redirect to login, and the header still holds the stored token.
\<close>

theorem expired_credential_refreshes_once:
  assumes "parse_tokens env = Inr (Some v)" and "truthy (accessToken v)"
    and "truthy (backendURL env)" and "expiresAt v < now env"
  shows "filter is_refresh (guard_events env s) = [RefreshCall (refreshToken v)] \<and>
         (\<forall>m. refresh_endpoint env (refreshToken v) = Rejects m \<longrightarrow>
            guard_events env s =
              [HeaderSet (''Bearer '' @ tpl (accessToken v)), RefreshCall (refreshToken v),
               ToastShow (translate env ''home_container_error_title'') ''error''
                 (translate env ''home_container_error_description'' @ '', '' @ m)] \<and>
            (\<forall>r. NavReset r \<notin> set (guard_events env s)) \<and>
            Authorization (final (sessionGuard env s)) = Some (''Bearer '' @ tpl (accessToken v)))"
  using assms
  by (auto simp: guard_simps isTokenFresh_def split: settled.splits)

theorem expired_credential_refreshes_once_witness:
  "parse_tokens env_expired = Inr (Some stored_credential) \<and>
   truthy (accessToken stored_credential) \<and> truthy (backendURL env_expired) \<and>
   expiresAt stored_credential < now env_expired \<and>
   refresh_endpoint env_expired (refreshToken stored_credential) = Rejects ''Network Error'' \<and>
   filter is_refresh (guard_events env_expired mounted) = [RefreshCall ''R''] \<and>
   guard_events env_expired mounted =
     [HeaderSet ''Bearer A'', RefreshCall ''R'',
      ToastShow ''home_container_error_title'' ''error''
        ''home_container_error_description, Network Error''] \<and>
   Authorization (final (sessionGuard env_expired mounted)) = Some ''Bearer A''"
proof -
  have h1: "parse_tokens env_expired = Inr (Some stored_credential)"
    by (simp add: env_expired_def sample_defs)
  have h2: "truthy (accessToken stored_credential)"
    by (simp add: env_expired_def sample_defs)
  have h3: "truthy (backendURL env_expired)"
    by (simp add: env_expired_def sample_defs)
  have h4: "expiresAt stored_credential < now env_expired"
    by (simp add: env_expired_def sample_defs)
  have h5: "refresh_endpoint env_expired (refreshToken stored_credential) = Rejects ''Network Error''"
    by (simp add: env_expired_def sample_defs)
  from expired_credential_refreshes_once [OF h1 h2 h3 h4, of mounted] h5
  have "filter is_refresh (guard_events env_expired mounted) =
          [RefreshCall (refreshToken stored_credential)] \<and>
        guard_events env_expired mounted =
          [HeaderSet (''Bearer '' @ tpl (accessToken stored_credential)),
           RefreshCall (refreshToken stored_credential),
           ToastShow (translate env_expired ''home_container_error_title'') ''error''
             (translate env_expired ''home_container_error_description'' @ '', '' @
              ''Network Error'')] \<and>
        Authorization (final (sessionGuard env_expired mounted)) =
          Some (''Bearer '' @ tpl (accessToken stored_credential))"
    by blast
  with h1 h2 h3 h4 h5 show ?thesis
    by (simp add: stored_credential_def tpl_def env_expired_def sample_env_def)
qed

text \<open>
  C5 as stated fails: the same expired credential, with no backend configured, is sent to
  login; the refresh endpoint is not called.
\<close>

theorem expired_without_backend_no_refresh:
  "parse_tokens env_expired_no_backend = Inr (Some stored_credential) \<and>
   expiresAt stored_credential < now env_expired_no_backend \<and>
   guard_events env_expired_no_backend mounted = [NavReset ''oauth''] \<and>
   filter is_refresh (guard_events env_expired_no_backend mounted) = []"
  by (simp add: env_expired_no_backend_def sample_defs guard_defs)




text \<open>
  C7, as amended. For every stored credential with a non-empty access token that is fresh,
  with the biometric lock disabled and a backend configured, the guard returns with the
  header set to the stored token and without a redirect: it sets the header and calls the
  currencies endpoint (showing an error notification if that call fails), and does nothing
  else; it issues no token-refresh call and does not invoke the biometric prompt.
\<close>

theorem fresh_unlocked_authenticated:
  assumes "parse_tokens env = Inr (Some v)" and "truthy (accessToken v)"
    and "truthy (backendURL env)" and "isTokenFresh env v" and "\<not> faceId env"
  shows "(\<exists>s'. sessionGuard env s = Returned s') \<and>
         Authorization (final (sessionGuard env s)) = Some (''Bearer '' @ tpl (accessToken v)) \<and>
         guard_events env s =
           HeaderSet (''Bearer '' @ tpl (accessToken v)) # GetCurrencies #
           (case currencies_endpoint env of
              Resolves u \<Rightarrow> []
            | Rejects m \<Rightarrow>
                [ToastShow (translate env ''home_container_error_title'') ''error''
                   (translate env ''home_container_error_description'' @ '', '' @ m)]) \<and>
         (\<forall>rt. RefreshCall rt \<notin> set (guard_events env s)) \<and>
         BiometricPrompt \<notin> set (guard_events env s) \<and>
         (\<forall>r. NavReset r \<notin> set (guard_events env s))"
  using assms
  by (auto simp: guard_simps split: settled.splits)

theorem fresh_unlocked_authenticated_witness:
  "parse_tokens sample_env = Inr (Some stored_credential) \<and>
   truthy (accessToken stored_credential) \<and> truthy (backendURL sample_env) \<and>
   isTokenFresh sample_env stored_credential \<and> \<not> faceId sample_env \<and>
   Authorization (final (sessionGuard sample_env mounted)) = Some ''Bearer A'' \<and>
   guard_events sample_env mounted = [HeaderSet ''Bearer A'', GetCurrencies]"
proof -
  have h1: "parse_tokens sample_env = Inr (Some stored_credential)" by (simp add: sample_defs)
  have h2: "truthy (accessToken stored_credential)" by (simp add: sample_defs)
  have h3: "truthy (backendURL sample_env)" by (simp add: sample_defs)
  have h4: "isTokenFresh sample_env stored_credential" by (simp add: sample_defs)
  have h5: "\<not> faceId sample_env" by (simp add: sample_defs)
  from fresh_unlocked_authenticated [OF h1 h2 h3 h4 h5, of mounted] h1 h2 h3 h4 h5
  show ?thesis
    by (simp add: stored_credential_def tpl_def sample_env_def)
qed

text \<open>
  C7 as stated fails: the same fresh credential with the lock off, but no backend
  configured, is sent to login and the header stays unset.
\<close>

theorem fresh_without_backend_redirects:
  "parse_tokens env_no_backend = Inr (Some stored_credential) \<and>
   truthy (accessToken stored_credential) \<and>
   isTokenFresh env_no_backend stored_credential \<and> \<not> faceId env_no_backend \<and>
   guard_events env_no_backend mounted = [NavReset ''oauth''] \<and>
   Authorization (final (sessionGuard env_no_backend mounted)) = None"
  by (simp add: env_no_backend_def sample_defs guard_defs)

text \<open>
  The gate on \<^verbatim>\<open>backendURL\<close> (line 305). For every stored value that is absent or
  that the parser accepts, a credential with an access token included, if
  \<^verbatim>\<open>backendURL\<close> is unset the guard returns after one effect, the navigation reset to
  the login entry point: it does not install the header, calls neither the refresh
  endpoint nor the currencies endpoint, and does not prompt.
\<close>

lemma no_backend_redirects:
  assumes "\<not> truthy (backendURL env)" and "parse_tokens env = Inr p"
  shows "sessionGuard env s = Returned (goToOauth s) \<and>
         guard_events env s = [NavReset ''oauth''] \<and>
         Authorization (final (sessionGuard env s)) = Authorization s \<and>
         (\<forall>h. HeaderSet h \<notin> set (guard_events env s)) \<and>
         (\<forall>rt. RefreshCall rt \<notin> set (guard_events env s)) \<and>
         BiometricPrompt \<notin> set (guard_events env s) \<and>
         GetCurrencies \<notin> set (guard_events env s)"
  using assms
  by (auto simp: guard_simps split: option.splits)

lemma no_backend_sample_redirected:
  "parse_tokens env_no_backend = Inr (Some stored_credential) \<and>
   accessToken stored_credential = Some ''A'' \<and>
   guard_events env_no_backend mounted = [NavReset ''oauth'']"
proof -
  have h1: "\<not> truthy (backendURL env_no_backend)"
    by (simp add: env_no_backend_def sample_defs)
  have h2: "parse_tokens env_no_backend = Inr (Some stored_credential)"
    by (simp add: env_no_backend_def sample_defs)
  from no_backend_redirects [OF h1 h2, of mounted] h2 show ?thesis
    by (simp add: stored_credential_def)
qed

text \<open>
  C9, at the input where the code departs from it. The claim is about every stored
  credential; \<^verbatim>\<open>backendURL\<close> is unset and the store holds the text \<^verbatim>\<open>{\<close>, which
  \<^verbatim>\<open>JSON.parse\<close> refuses. The call of line 304 stands before the test of line 305 and
  outside the \<^verbatim>\<open>try\<close> block, so the guard ends with the parser's error, unhandled,
  before it looks at \<^verbatim>\<open>backendURL\<close>: the navigation is not reset. This is the defect
  of C3 again.
\<close>

theorem no_backend_unparsable_not_redirected:
  "\<not> truthy (backendURL env_unparsable_no_backend) \<and>
   getItemAsync env_unparsable_no_backend = Some ''{'' \<and>
   sessionGuard env_unparsable_no_backend mounted =
     Threw ''SyntaxError: JSON Parse error'' mounted \<and>
   guard_events env_unparsable_no_backend mounted = [] \<and>
   NavReset ''oauth'' \<notin> set (guard_events env_unparsable_no_backend mounted)"
  by (simp add: env_unparsable_no_backend_def sample_defs guard_defs)

text \<open>
  C10. When the guard prompts and the prompt is denied, the run goes on after the
  navigation reset: the prompt, the reset and the call of the currencies endpoint follow
  one another in the trace, and at the end of the run the header is still set, to a value
  the guard installed before the prompt.
\<close>

theorem biometric_denial_not_terminal:
  assumes "authenticateAsync env = Resolves False"
    and "BiometricPrompt \<in> set (guard_events env s)"
  shows "\<exists>pre post.
           guard_events env s = pre @ [BiometricPrompt, NavReset ''oauth'', GetCurrencies] @ post \<and>
           (\<exists>h. HeaderSet h \<in> set pre \<and> Authorization (final (sessionGuard env s)) = Some h)"
  using assms
  by (auto simp: guard_simps parse_tokens_def Cons_eq_append_conv
      split: settled.splits sum.splits option.splits if_splits)

theorem biometric_denial_not_terminal_witness:
  "authenticateAsync env_locked = Resolves False \<and>
   BiometricPrompt \<in> set (guard_events env_locked mounted) \<and>
   guard_events env_locked mounted =
     [HeaderSet ''Bearer A''] @ [BiometricPrompt, NavReset ''oauth'', GetCurrencies] @ [] \<and>
   Authorization (final (sessionGuard env_locked mounted)) = Some ''Bearer A'' \<and>
   (\<exists>pre post.
      guard_events env_locked mounted =
        pre @ [BiometricPrompt, NavReset ''oauth'', GetCurrencies] @ post \<and>
      (\<exists>h. HeaderSet h \<in> set pre \<and>
           Authorization (final (sessionGuard env_locked mounted)) = Some h))"
proof -
  have h1: "authenticateAsync env_locked = Resolves False" by (simp add: env_locked_def sample_defs)
  have run: "guard_events env_locked mounted =
      [HeaderSet ''Bearer A''] @ [BiometricPrompt, NavReset ''oauth'', GetCurrencies] @ []"
    by (simp add: env_locked_def sample_defs guard_defs)
  have h2: "BiometricPrompt \<in> set (guard_events env_locked mounted)"
    by (simp add: run)
  have hdr: "Authorization (final (sessionGuard env_locked mounted)) = Some ''Bearer A''"
    by (simp add: env_locked_def sample_defs guard_defs)
  from biometric_denial_not_terminal [OF h1 h2] h1 h2 run hdr show ?thesis
    by blast
qed

end
